theory Spec2Isabelle
  imports Complex_Main
begin

section \<open>The inventory text parser of \<^verbatim>\<open>app.py\<close>\<close>

text \<open>
  This theory embeds \<^verbatim>\<open>parse_inventory_file\<close> (app.py, lines 24-85) and the
  parts of Python's \<^verbatim>\<open>str\<close>, \<^verbatim>\<open>re\<close>, \<^verbatim>\<open>int\<close> and \<^verbatim>\<open>float\<close> it
  relies on.

  Text. A Python \<^verbatim>\<open>str\<close> is a sequence of code points and \<^verbatim>\<open>len\<close> counts code
  points. A \<^typ>\<open>char\<close> stands for the code point of the same number, so the strings of
  this theory are the Python strings over U+0000..U+00FF; the letter U+00E1
  (a with acute accent) is \<open>CHR 0xE1\<close>. On this range the character classes below
  are those of CPython: \<^verbatim>\<open>str.isspace\<close>, \<^verbatim>\<open>str.strip\<close> and \<^verbatim>\<open>\s\<close> agree on
  twelve code points, and \<^verbatim>\<open>\d\<close> is \<^verbatim>\<open>0\<close>..\<^verbatim>\<open>9\<close>.

  Numbers. \<^verbatim>\<open>quantity\<close> is a Python \<^verbatim>\<open>int\<close>, here \<^typ>\<open>int\<close>. \<^verbatim>\<open>price\<close> is the
  result of \<^verbatim>\<open>float\<close> on a decimal literal; the model keeps the exact value of the
  literal as a \<^typ>\<open>rat\<close>, where Python rounds it to the nearest double.
\<close>

subsection \<open>Characters\<close>

definition newline :: char where
  "newline = CHR 0x0A"

definition is_space :: "char \<Rightarrow> bool" where
  \<comment> \<open>\<^verbatim>\<open>str.isspace\<close> on one character, also the class \<^verbatim>\<open>\s\<close>:
      U+0009..U+000D, U+001C..U+0020, U+0085, U+00A0.\<close>
  "is_space c =
     (let n = (of_char c :: nat)
      in (9 \<le> n \<and> n \<le> 13) \<or> (28 \<le> n \<and> n \<le> 32) \<or> n = 133 \<or> n = 160)"

definition is_digit :: "char \<Rightarrow> bool" where
  \<comment> \<open>the class \<^verbatim>\<open>\d\<close>\<close>
  "is_digit c = (let n = (of_char c :: nat) in 48 \<le> n \<and> n \<le> 57)"

definition is_sep :: "char \<Rightarrow> bool" where
  \<comment> \<open>the class \<^verbatim>\<open>[.,]\<close>\<close>
  "is_sep c = (c = CHR ''.'' \<or> c = CHR '','')"

subsection \<open>String methods\<close>

definition py_strip :: "string \<Rightarrow> string" where
  \<comment> \<open>\<^verbatim>\<open>s.strip()\<close>\<close>
  "py_strip s = rev (dropWhile is_space (rev (dropWhile is_space s)))"

definition py_isspace :: "string \<Rightarrow> bool" where
  \<comment> \<open>\<^verbatim>\<open>s.isspace()\<close>: false on the empty string\<close>
  "py_isspace s = (s \<noteq> [] \<and> list_all is_space s)"

definition py_endswith_dot :: "string \<Rightarrow> bool" where
  \<comment> \<open>\<^verbatim>\<open>s.endswith('.')\<close>\<close>
  "py_endswith_dot s = (s \<noteq> [] \<and> last s = CHR ''.'')"

definition py_drop_last :: "string \<Rightarrow> string" where
  \<comment> \<open>\<^verbatim>\<open>s[:-1]\<close>\<close>
  "py_drop_last s = take (length s - 1) s"

definition py_replace_comma :: "string \<Rightarrow> string" where
  \<comment> \<open>\<^verbatim>\<open>s.replace(',', '.')\<close>\<close>
  "py_replace_comma s = map (\<lambda>c. if c = CHR '','' then CHR ''.'' else c) s"

subsection \<open>Conversions\<close>

datatype error = ValueError

definition digit_val :: "char \<Rightarrow> nat" where
  "digit_val c = of_char c - 48"

definition digits_val :: "string \<Rightarrow> nat" where
  "digits_val s = foldl (\<lambda>a c. 10 * a + digit_val c) 0 s"

definition int_max_str_digits :: nat where
  \<comment> \<open>the default of \<^verbatim>\<open>sys.int_max_str_digits\<close> (CPython 3.11 and later)\<close>
  "int_max_str_digits = 4300"

definition py_int :: "string \<Rightarrow> error + int" where
  \<comment> \<open>\<^verbatim>\<open>int(s)\<close> on a string of decimal digits, the only strings \<^verbatim>\<open>(\d+)\<close>
      captures. A digit string longer than \<^verbatim>\<open>sys.int_max_str_digits\<close> raises
      \<^verbatim>\<open>ValueError\<close>.\<close>
  "py_int s =
     (if s = [] \<or> \<not> list_all is_digit s then Inl ValueError
      else if int_max_str_digits < length s then Inl ValueError
      else Inr (int (digits_val s)))"

definition py_float :: "string \<Rightarrow> error + rat" where
  \<comment> \<open>\<^verbatim>\<open>float(s)\<close> on plain decimal literals: an optional sign, digits, and an
      optional point followed by digits, with a digit on at least one side of the
      point. The other forms \<^verbatim>\<open>float\<close> accepts (exponents, \<^verbatim>\<open>inf\<close>, \<^verbatim>\<open>nan\<close>,
      underscores, blanks around the literal) need a character that is not a digit,
      a sign or a point.\<close>
  "py_float s =
     (let neg = (s \<noteq> [] \<and> hd s = CHR ''-'');
          u = (if s \<noteq> [] \<and> (hd s = CHR ''-'' \<or> hd s = CHR ''+'') then tl s else s);
          ip = takeWhile is_digit u;
          r = dropWhile is_digit u;
          mag = (if r = [] then (if ip = [] then None else Some (of_nat (digits_val ip)))
                 else if hd r = CHR ''.'' \<and> list_all is_digit (tl r) \<and> (ip \<noteq> [] \<or> tl r \<noteq> [])
                 then Some (of_nat (digits_val ip)
                            + of_nat (digits_val (tl r)) / 10 ^ length (tl r))
                 else None)
      in case mag of
           None \<Rightarrow> Inl ValueError
         | Some m \<Rightarrow> Inr (if neg then - m else m))"

subsection \<open>The two regular expressions\<close>

text \<open>
  \<^verbatim>\<open>re.match\<close> is a backtracking search anchored at the start of the string. A
  greedy \<^verbatim>\<open>X+\<close> tries the longest run first and then shorter ones, the lazy
  \<^verbatim>\<open>.*?\<close> tries the shortest body first and then longer ones, an optional group is
  tried before it is skipped, and the first combination under which the whole
  pattern matches is the result. \<^verbatim>\<open>.\<close> matches every character but the newline;
  \<^verbatim>\<open>$\<close> matches at the end of the string and before a newline that ends it.
\<close>

fun first_some :: "('a \<Rightarrow> 'b option) \<Rightarrow> 'a list \<Rightarrow> 'b option" where
  "first_some f [] = None"
| "first_some f (x # xs) = (case f x of Some y \<Rightarrow> Some y | None \<Rightarrow> first_some f xs)"

definition greedy_counts :: "(char \<Rightarrow> bool) \<Rightarrow> string \<Rightarrow> nat list" where
  \<comment> \<open>the lengths a greedy \<^verbatim>\<open>X+\<close> tries at the head of \<open>s\<close>, in its order\<close>
  "greedy_counts P s = rev [1 ..< Suc (length (takeWhile P s))]"

definition lazy_counts :: "string \<Rightarrow> nat list" where
  \<comment> \<open>the lengths the lazy \<^verbatim>\<open>.*?\<close> tries at the head of \<open>s\<close>, in its order\<close>
  "lazy_counts s = [0 ..< Suc (length (takeWhile (\<lambda>c. c \<noteq> newline) s))]"

definition match_end :: "string \<Rightarrow> bool" where
  \<comment> \<open>\<^verbatim>\<open>$\<close> at the position where \<open>s\<close> remains\<close>
  "match_end s = (s = [] \<or> s = [newline])"

definition match_number :: "string \<Rightarrow> string option" where
  \<comment> \<open>\<^verbatim>\<open>(\d+(?:[.,]\d+)?)$\<close> at the head of \<open>s\<close>: the captured token\<close>
  "match_number s =
     first_some (\<lambda>i.
        let r = drop i s;
            with_fraction =
              (if r \<noteq> [] \<and> is_sep (hd r)
               then first_some (\<lambda>j. if match_end (drop j (tl r))
                                      then Some (take (i + 1 + j) s) else None)
                               (greedy_counts is_digit (tl r))
               else None)
        in case with_fraction of
             Some t \<Rightarrow> Some t
           | None \<Rightarrow> if match_end r then Some (take i s) else None)
       (greedy_counts is_digit s)"

definition match_tail :: "string \<Rightarrow> string option option" where
  \<comment> \<open>\<^verbatim>\<open>(?:\s+(\d+(?:[.,]\d+)?))?$\<close> at the head of \<open>s\<close>: \<open>None\<close> is no match,
      \<open>Some None\<close> a match that skips the group, \<open>Some (Some t)\<close> a match that
      captures \<open>t\<close>\<close>
  "match_tail s =
     (case first_some (\<lambda>i. match_number (drop i s)) (greedy_counts is_space s) of
        Some t \<Rightarrow> Some (Some t)
      | None \<Rightarrow> if match_end s then Some None else None)"

definition match_body_tail :: "string \<Rightarrow> (string \<times> string option) option" where
  \<comment> \<open>\<^verbatim>\<open>(.*?)(?:\s+(\d+(?:[.,]\d+)?))?$\<close> at the head of \<open>s\<close>\<close>
  "match_body_tail s =
     first_some (\<lambda>k. case match_tail (drop k s) of
                        Some p \<Rightarrow> Some (take k s, p)
                      | None \<Rightarrow> None)
                (lazy_counts s)"

definition pattern_A :: "string \<Rightarrow> (string \<times> string \<times> string option) option" where
  \<comment> \<open>line 38, "Padr\~ao 1":
      \<^verbatim>\<open>re.match(r'(\d+)\s+(.*?)(?:\s+(\d+(?:[.,]\d+)?))?$', line)\<close>, groups 1, 2, 3\<close>
  "pattern_A s =
     first_some (\<lambda>i.
        first_some (\<lambda>j. case match_body_tail (drop (i + j) s) of
                           Some (b, p) \<Rightarrow> Some (take i s, b, p)
                         | None \<Rightarrow> None)
                   (greedy_counts is_space (drop i s)))
       (greedy_counts is_digit s)"

definition pattern_B :: "string \<Rightarrow> (string \<times> string option) option" where
  \<comment> \<open>line 42, "Padr\~ao 2":
      \<^verbatim>\<open>re.match(r'(.*?)(?:\s+(\d+(?:[.,]\d+)?))?$', line)\<close>, groups 1, 2\<close>
  "pattern_B s = match_body_tail s"

subsection \<open>The body of the loop\<close>

record product =
  quantity :: int
  name :: string
  price :: rat

definition extract_fields :: "string \<Rightarrow> error + (int \<times> string \<times> string option)" where
  \<comment> \<open>lines 38-55: the cascade of patterns, giving \<^verbatim>\<open>quantity\<close>, \<^verbatim>\<open>name\<close>,
      \<^verbatim>\<open>price_str\<close>\<close>
  "extract_fields line =
     (case pattern_A line of
        None \<Rightarrow>
          (case pattern_B line of
             Some (g1, g2) \<Rightarrow> Inr (1, py_strip g1, g2)
           | None \<Rightarrow> Inr (1, line, None))
      | Some (g1, g2, g3) \<Rightarrow>
          (case py_int g1 of
             Inl e \<Rightarrow> Inl e
           | Inr q \<Rightarrow> Inr (q, py_strip g2, g3)))"

definition convert_price :: "string option \<Rightarrow> rat" where
  \<comment> \<open>lines 58-66; \<^verbatim>\<open>if price_str:\<close> is false on \<^verbatim>\<open>None\<close> and on the empty string\<close>
  "convert_price price_str =
     (case price_str of
        None \<Rightarrow> 0
      | Some t \<Rightarrow>
          if t = [] then 0
          else (case py_float (py_replace_comma t) of
                  Inl ValueError \<Rightarrow> 0
                | Inr v \<Rightarrow> v))"

definition clean_name :: "string \<Rightarrow> string" where
  \<comment> \<open>lines 69-71\<close>
  "clean_name nm =
     (let n1 = py_strip nm
      in if py_endswith_dot n1 then py_strip (py_drop_last n1) else n1)"

definition try_body :: "string \<Rightarrow> error + product option" where
  \<comment> \<open>lines 34-79, the block under \<^verbatim>\<open>try\<close>: \<open>Inl e\<close> is the exception \<open>e\<close>,
      \<open>Inr None\<close> a line whose name fails the guard of line 74, \<open>Inr (Some p)\<close>
      the product appended\<close>
  "try_body line =
     (case extract_fields line of
        Inl e \<Rightarrow> Inl e
      | Inr (q, nm, price_str) \<Rightarrow>
          let pr = convert_price price_str;
              nm' = clean_name nm
          in if nm' \<noteq> [] \<and> \<not> py_isspace nm'
             then Inr (Some \<lparr>quantity = q, name = nm', price = pr\<rparr>)
             else Inr None)"

subsection \<open>The loop and the function\<close>

datatype message =
    Erro_ao_processar nat string error
  | Total_importados nat

record pstate =
  products :: "product list"
  stdout :: "message list"

definition loop_body :: "nat \<Rightarrow> string \<Rightarrow> pstate \<Rightarrow> pstate" where
  \<comment> \<open>lines 30-82, one turn of the \<^verbatim>\<open>for\<close>: the \<^verbatim>\<open>except\<close> clause prints the line
      number, the stripped line and the error\<close>
  "loop_body line_number raw st =
     (let line = py_strip raw
      in if line = [] \<or> length line < 3 then st
         else (case try_body line of
                 Inr (Some p) \<Rightarrow> st\<lparr>products := products st @ [p]\<rparr>
               | Inr None \<Rightarrow> st
               | Inl e \<Rightarrow> st\<lparr>stdout := stdout st @ [Erro_ao_processar line_number line e]\<rparr>))"

fun for_lines :: "nat \<Rightarrow> string list \<Rightarrow> pstate \<Rightarrow> pstate" where
  \<comment> \<open>\<^verbatim>\<open>for line_number, line in enumerate(file, 1)\<close>\<close>
  "for_lines n [] st = st"
| "for_lines n (raw # rest) st = for_lines (Suc n) rest (loop_body n raw st)"

definition parse_inventory_file :: "string list \<Rightarrow> message list \<Rightarrow> product list \<times> message list" where
  \<comment> \<open>lines 24-85. \<open>file\<close> is the sequence of lines the opened file yields, \<open>out\<close> what
      has been printed before the call; the result is the returned list and what has
      been printed after it.\<close>
  "parse_inventory_file file out =
     (let st = for_lines 1 file \<lparr>products = [], stdout = out\<rparr>
      in (products st, stdout st @ [Total_importados (length (products st))]))"

section \<open>Properties\<close>

subsection \<open>The backtracking search\<close>

lemma first_some_Some_elem:
  "first_some f xs = Some y \<Longrightarrow> \<exists>x \<in> set xs. f x = Some y"
  by (induction xs) (auto split: option.splits)

lemma first_some_None_iff:
  "first_some f xs = None \<longleftrightarrow> (\<forall>x \<in> set xs. f x = None)"
  by (induction xs) (auto split: option.splits)

lemma greedy_counts_elem:
  "i \<in> set (greedy_counts P s) \<longleftrightarrow> 1 \<le> i \<and> i \<le> length (takeWhile P s)"
  by (auto simp: greedy_counts_def)

lemma takeWhile_prefix_all:
  "i \<le> length (takeWhile P s) \<Longrightarrow> list_all P (take i s)"
proof (induction s arbitrary: i)
  case Nil
  then show ?case by simp
next
  case (Cons c s)
  then show ?case by (cases i) (auto split: if_splits)
qed

lemma greedy_counts_prefix:
  assumes "i \<in> set (greedy_counts P s)"
  shows "take i s \<noteq> [] \<and> list_all P (take i s) \<and> i \<le> length s"
proof -
  from assms have i: "1 \<le> i" "i \<le> length (takeWhile P s)" by (auto simp: greedy_counts_elem)
  have "length (takeWhile P s) \<le> length s" by (rule length_takeWhile_le)
  with i have "i \<le> length s" by simp
  with i show ?thesis by (auto simp: takeWhile_prefix_all)
qed

lemma match_number_token:
  assumes "match_number s = Some t"
  shows "t \<noteq> [] \<and> is_digit (hd t) \<and> list_all (\<lambda>c. is_digit c \<or> is_sep c) t"
proof -
  from assms obtain i where i: "i \<in> set (greedy_counts is_digit s)"
    and body: "(case (if drop i s \<noteq> [] \<and> is_sep (hd (drop i s))
               then first_some (\<lambda>j. if match_end (drop j (tl (drop i s)))
                                      then Some (take (i + 1 + j) s) else None)
                               (greedy_counts is_digit (tl (drop i s)))
               else None) of
             Some t \<Rightarrow> Some t
           | None \<Rightarrow> if match_end (drop i s) then Some (take i s) else None) = Some t"
    unfolding match_number_def Let_def by (blast dest: first_some_Some_elem)
  from greedy_counts_prefix [OF i]
  have p: "take i s \<noteq> []" "list_all is_digit (take i s)" "i \<le> length s" by simp_all
  then have hd_p: "is_digit (hd (take i s))" by (cases "take i s") auto
  have all_p: "list_all (\<lambda>c. is_digit c \<or> is_sep c) (take i s)"
    using p(2) by (auto simp: list_all_iff)
  show ?thesis
  proof (cases "t = take i s")
    case True
    with p hd_p all_p show ?thesis by simp
  next
    case False
    with body have r: "drop i s \<noteq> []" "is_sep (hd (drop i s))"
      and fs: "first_some (\<lambda>j. if match_end (drop j (tl (drop i s)))
                                      then Some (take (i + 1 + j) s) else None)
                               (greedy_counts is_digit (tl (drop i s))) = Some t"
      by (auto split: option.splits if_splits)
    from fs obtain j where j: "j \<in> set (greedy_counts is_digit (tl (drop i s)))"
      and t: "t = take (i + 1 + j) s"
      by (auto dest!: first_some_Some_elem split: if_splits)
    from greedy_counts_prefix [OF j]
    have q: "list_all is_digit (take j (tl (drop i s)))" by simp
    have "take (i + 1 + j) s = take (i + Suc j) s" by simp
    also have "\<dots> = take i s @ take (Suc j) (drop i s)"
      by (rule take_add)
    also have "take (Suc j) (drop i s) = hd (drop i s) # take j (tl (drop i s))"
      using r(1) by (cases "drop i s") simp_all
    finally have t': "t = take i s @ hd (drop i s) # take j (tl (drop i s))"
      using t by simp
    show ?thesis
      using p hd_p all_p q r(2) unfolding t' by (auto simp: list_all_iff)
  qed
qed


lemma match_tail_token:
  assumes "match_tail s = Some (Some t)"
  shows "t \<noteq> [] \<and> is_digit (hd t) \<and> list_all (\<lambda>c. is_digit c \<or> is_sep c) t"
proof -
  from assms have "first_some (\<lambda>i. match_number (drop i s)) (greedy_counts is_space s) = Some t"
    unfolding match_tail_def by (auto split: option.splits if_splits)
  then obtain i where "match_number (drop i s) = Some t"
    by (blast dest: first_some_Some_elem)
  then show ?thesis by (rule match_number_token)
qed

lemma match_body_tail_token:
  assumes "match_body_tail s = Some (b, Some t)"
  shows "t \<noteq> [] \<and> is_digit (hd t) \<and> list_all (\<lambda>c. is_digit c \<or> is_sep c) t"
proof -
  from assms obtain k where "match_tail (drop k s) = Some (Some t)"
    unfolding match_body_tail_def
    by (auto dest!: first_some_Some_elem split: option.splits)
  then show ?thesis by (rule match_tail_token)
qed

lemma pattern_A_groups:
  assumes "pattern_A s = Some (g1, g2, g3)"
  shows "g1 \<noteq> [] \<and> list_all is_digit g1 \<and> (\<exists>r. match_body_tail r = Some (g2, g3))"
proof -
  from assms obtain i where i: "i \<in> set (greedy_counts is_digit s)"
    and "first_some (\<lambda>j. case match_body_tail (drop (i + j) s) of
                           Some (b, p) \<Rightarrow> Some (take i s, b, p)
                         | None \<Rightarrow> None)
                   (greedy_counts is_space (drop i s)) = Some (g1, g2, g3)"
    unfolding pattern_A_def by (blast dest: first_some_Some_elem)
  then obtain j where "(case match_body_tail (drop (i + j) s) of
                           Some (b, p) \<Rightarrow> Some (take i s, b, p)
                         | None \<Rightarrow> None) = Some (g1, g2, g3)"
    by (blast dest: first_some_Some_elem)
  then have "g1 = take i s" "match_body_tail (drop (i + j) s) = Some (g2, g3)"
    by (auto split: option.splits)
  with greedy_counts_prefix [OF i] show ?thesis by auto
qed

lemma is_digit_not_sign: "is_digit c \<Longrightarrow> c \<noteq> CHR ''-'' \<and> c \<noteq> CHR '',''"
  by (auto simp: is_digit_def)

lemma py_float_unsigned_nonneg:
  assumes "py_float s = Inr v" and "s \<noteq> []" and "hd s \<noteq> CHR ''-''"
  shows "0 \<le> v"
  using assms unfolding py_float_def Let_def
  by (auto split: if_splits option.splits)

lemma convert_price_token_nonneg:
  assumes "\<forall>t. price_str = Some t \<longrightarrow> t \<noteq> [] \<and> is_digit (hd t)"
  shows "0 \<le> convert_price price_str"
proof (cases price_str)
  case None
  then show ?thesis by (simp add: convert_price_def)
next
  case (Some t)
  with assms have t: "t \<noteq> []" "is_digit (hd t)" by simp_all
  then have "hd (py_replace_comma t) = hd t"
    by (cases t) (auto simp: py_replace_comma_def dest: is_digit_not_sign)
  with t have "py_replace_comma t \<noteq> []" "hd (py_replace_comma t) \<noteq> CHR ''-''"
    by (auto simp: py_replace_comma_def dest: is_digit_not_sign)
  then have "\<And>v. py_float (py_replace_comma t) = Inr v \<Longrightarrow> 0 \<le> v"
    by (blast intro: py_float_unsigned_nonneg)
  with Some show ?thesis
    by (auto simp: convert_price_def split: sum.splits error.splits)
qed

lemma py_int_nonneg: "py_int s = Inr q \<Longrightarrow> 0 \<le> q"
  by (auto simp: py_int_def split: if_splits)

lemma extract_fields_nonneg:
  assumes "extract_fields line = Inr (q, nm, price_str)"
  shows "0 \<le> q \<and> 0 \<le> convert_price price_str"
proof (cases "pattern_A line")
  case None
  show ?thesis
  proof (cases "pattern_B line")
    case N: None
    with None assms show ?thesis
      by (simp add: extract_fields_def convert_price_def)
  next
    case (Some g)
    obtain g1 g2 where g: "g = (g1, g2)" by (cases g)
    with None Some assms have q: "q = 1" and ps: "price_str = g2"
      by (simp_all add: extract_fields_def)
    from Some g have "match_body_tail line = Some (g1, g2)" by (simp add: pattern_B_def)
    then have "\<forall>t. g2 = Some t \<longrightarrow> t \<noteq> [] \<and> is_digit (hd t)"
      by (blast dest: match_body_tail_token)
    with q ps show ?thesis by (simp add: convert_price_token_nonneg)
  qed
next
  case (Some g)
  obtain g1 g2 g3 where g: "g = (g1, g2, g3)" by (cases g)
  with Some assms have q: "py_int g1 = Inr q" and ps: "price_str = g3"
    by (auto simp: extract_fields_def split: sum.splits)
  from Some g obtain r where "match_body_tail r = Some (g2, g3)"
    by (blast dest: pattern_A_groups)
  then have "\<forall>t. g3 = Some t \<longrightarrow> t \<noteq> [] \<and> is_digit (hd t)"
    by (blast dest: match_body_tail_token)
  with q ps show ?thesis by (simp add: convert_price_token_nonneg py_int_nonneg)
qed

lemma try_body_invariant:
  assumes "try_body line = Inr (Some p)"
  shows "0 \<le> quantity p \<and> 0 \<le> price p \<and> name p \<noteq> [] \<and> \<not> list_all is_space (name p)"
proof -
  from assms obtain q nm price_str where e: "extract_fields line = Inr (q, nm, price_str)"
    and p: "p = \<lparr>quantity = q, name = clean_name nm, price = convert_price price_str\<rparr>"
    and g: "clean_name nm \<noteq> []" "\<not> py_isspace (clean_name nm)"
    unfolding try_body_def Let_def
    by (auto split: sum.splits prod.splits if_splits)
  from extract_fields_nonneg [OF e] p g show ?thesis
    by (simp add: py_isspace_def)
qed


lemma loop_body_products:
  "products (loop_body n raw st) =
     products st @ products (loop_body m raw \<lparr>products = [], stdout = []\<rparr>)"
  by (simp add: loop_body_def Let_def split: sum.splits option.splits)

lemma loop_body_at_most_one:
  "length (products (loop_body m raw \<lparr>products = [], stdout = []\<rparr>)) \<le> 1"
  by (simp add: loop_body_def Let_def split: sum.splits option.splits)

lemma for_lines_products:
  "products (for_lines n lns st) =
     products st @ concat (map (\<lambda>raw. products (loop_body 0 raw \<lparr>products = [], stdout = []\<rparr>)) lns)"
proof (induction lns arbitrary: n st)
  case Nil
  then show ?case by simp
next
  case (Cons raw lns)
  have "products (for_lines n (raw # lns) st) = products (for_lines (Suc n) lns (loop_body n raw st))"
    by simp
  also have "\<dots> = products (loop_body n raw st)
      @ concat (map (\<lambda>raw. products (loop_body 0 raw \<lparr>products = [], stdout = []\<rparr>)) lns)"
    by (rule Cons.IH)
  also have "products (loop_body n raw st)
      = products st @ products (loop_body 0 raw \<lparr>products = [], stdout = []\<rparr>)"
    by (rule loop_body_products)
  finally show ?case by simp
qed

lemma parse_products:
  "fst (parse_inventory_file lns out) =
     concat (map (\<lambda>raw. products (loop_body 0 raw \<lparr>products = [], stdout = []\<rparr>)) lns)"
  by (simp add: parse_inventory_file_def Let_def for_lines_products)

lemma parse_single:
  "fst (parse_inventory_file [raw] out) = products (loop_body 0 raw \<lparr>products = [], stdout = []\<rparr>)"
  by (simp add: parse_products)

lemma loop_body_stdout:
  "\<exists>ms. stdout (loop_body n raw st) = stdout st @ ms"
  by (simp add: loop_body_def Let_def split: sum.splits option.splits)

lemma for_lines_stdout:
  "\<exists>ms. stdout (for_lines n lns st) = stdout st @ ms"
proof (induction lns arbitrary: n st)
  case Nil
  then show ?case by simp
next
  case (Cons raw lns)
  from Cons.IH [of "Suc n" "loop_body n raw st"] obtain ms
    where "stdout (for_lines (Suc n) lns (loop_body n raw st)) = stdout (loop_body n raw st) @ ms"
    by blast
  moreover obtain ms' where "stdout (loop_body n raw st) = stdout st @ ms'"
    using loop_body_stdout by blast
  ultimately show ?case by simp
qed

lemma match_body_tail_no_newline:
  assumes "newline \<notin> set s"
  shows "match_body_tail s \<noteq> None"
proof -
  from assms have tw: "takeWhile (\<lambda>c. c \<noteq> newline) s = s"
    by (induction s) auto
  have "length s \<in> set (lazy_counts s)"
    unfolding lazy_counts_def tw by simp
  moreover have "match_tail (drop (length s) s) = Some None"
    by (simp add: match_tail_def greedy_counts_def match_end_def)
  ultimately have "\<exists>k \<in> set (lazy_counts s).
      (case match_tail (drop k s) of Some p \<Rightarrow> Some (take k s, p) | None \<Rightarrow> None) \<noteq> None"
    by force
  then show ?thesis
    unfolding match_body_tail_def by (simp add: first_some_None_iff)
qed

lemma clean_name_dot: "py_strip nm = t @ ''.'' \<Longrightarrow> clean_name nm = py_strip t"
  by (simp add: clean_name_def py_endswith_dot_def py_drop_last_def)

lemma clean_name_no_dot: "(\<nexists>t. py_strip nm = t @ ''.'') \<Longrightarrow> clean_name nm = py_strip nm"
  unfolding clean_name_def py_endswith_dot_def Let_def
  by (metis append_butlast_last_id)

lemma py_strip_id:
  assumes "s \<noteq> []" "\<not> is_space (hd s)" "\<not> is_space (last s)"
  shows "py_strip s = s"
proof -
  from assms have "dropWhile is_space s = s" by (cases s) auto
  moreover from assms have "dropWhile is_space (rev s) = rev s"
    by (cases "rev s") (auto simp: last_rev [symmetric] simp del: last_rev)
  ultimately show ?thesis by (simp add: py_strip_def)
qed

lemma pattern_A_long_quantity:
  assumes "ds \<noteq> []" "list_all is_digit ds"
  shows "pattern_A (ds @ '' x'') = Some (ds, ''x'', None)"
proof -
  have tw: "takeWhile is_digit (ds @ '' x'') = ds"
    using assms(2) by (induction ds) (auto simp: is_digit_def)
  from assms(1) have "greedy_counts is_digit (ds @ '' x'') = length ds # rev [1 ..< length ds]"
    unfolding greedy_counts_def tw by (cases ds) simp_all
  moreover have "greedy_counts is_space '' x'' = [1]"
    by (simp add: greedy_counts_def is_space_def)
  moreover have "match_body_tail ''x'' = Some (''x'', None)"
    by code_simp
  ultimately show ?thesis
    by (simp add: pattern_A_def)
qed

lemma try_body_long_quantity:
  assumes "list_all is_digit ds" "int_max_str_digits < length ds"
  shows "try_body (ds @ '' x'') = Inl ValueError"
proof -
  from assms(2) have "ds \<noteq> []" by auto
  with assms(1) have "pattern_A (ds @ '' x'') = Some (ds, ''x'', None)"
    by (simp add: pattern_A_long_quantity)
  moreover from assms have "py_int ds = Inl ValueError"
    by (simp add: py_int_def)
  ultimately show ?thesis
    by (simp add: try_body_def extract_fields_def)
qed

subsection \<open>Stripping\<close>

lemma last_dropWhile_nonempty:
  "dropWhile P xs \<noteq> [] \<Longrightarrow> last (dropWhile P xs) = last xs"
  by (induction xs) (auto split: if_splits)

lemma py_strip_trimmed:
  "py_strip s = [] \<or> (\<not> is_space (hd (py_strip s)) \<and> \<not> is_space (last (py_strip s)))"
proof (cases "py_strip s = []")
  case True
  then show ?thesis by simp
next
  case False
  define a where "a = dropWhile is_space s"
  define b where "b = dropWhile is_space (rev a)"
  have s: "py_strip s = rev b" by (simp add: py_strip_def a_def b_def)
  with False have b: "b \<noteq> []" by simp
  then have ra: "rev a \<noteq> []" by (auto simp: b_def)
  then have a: "a \<noteq> []" by simp
  from b have "\<not> is_space (hd b)" unfolding b_def by (rule hd_dropWhile)
  then have l: "\<not> is_space (last (py_strip s))" using b by (simp add: s last_rev)
  from b have "last b = last (rev a)" unfolding b_def by (rule last_dropWhile_nonempty)
  also have "\<dots> = hd a" using a by (simp add: last_rev)
  finally have "hd (py_strip s) = hd a" using b by (simp add: s hd_rev)
  moreover from a have "\<not> is_space (hd a)" unfolding a_def by (rule hd_dropWhile)
  ultimately show ?thesis using l by simp
qed

subsection \<open>The examples of the specification\<close>

text \<open>
  C1. The single line \<^verbatim>\<open>12 Caderno 20 folhas 5.50\<close> gives exactly one record, with
  quantity 12, name \<^verbatim>\<open>Caderno 20 folhas\<close> and price 5.50: the first pattern captures
  the leading digits, the body up to the last blank and the token \<^verbatim>\<open>5.50\<close> at the
  end of the line, and the \<^verbatim>\<open>20\<close> inside the name stays in the name.
\<close>

theorem quantity_prefixed_line_example:
  "parse_inventory_file [''12 Caderno 20 folhas 5.50''] out =
     ([\<lparr>quantity = 12, name = ''Caderno 20 folhas'', price = 5.5\<rparr>],
      out @ [Total_importados 1])
   \<and> pattern_A ''12 Caderno 20 folhas 5.50'' =
       Some (''12'', ''Caderno 20 folhas'', Some ''5.50'')"
  by code_simp

text \<open>The returned list of C1, with nothing printed before the call.\<close>

theorem quantity_prefixed_line_example_witness:
  "fst (parse_inventory_file [''12 Caderno 20 folhas 5.50''] []) =
     [\<lparr>quantity = 12, name = ''Caderno 20 folhas'', price = 5.5\<rparr>]"
  by (simp add: quantity_prefixed_line_example [THEN conjunct1])

text \<open>
  C2. The single line \<^verbatim>\<open>Caderno 20 folhas 5,50\<close> gives exactly one record, with
  quantity 1, name \<^verbatim>\<open>Caderno 20 folhas\<close> and price 5.50: the first pattern does not
  match, the second captures the token \<^verbatim>\<open>5,50\<close>, and the comma becomes a point
  before the conversion.
\<close>

theorem no_quantity_line_example:
  "parse_inventory_file [''Caderno 20 folhas 5,50''] out =
     ([\<lparr>quantity = 1, name = ''Caderno 20 folhas'', price = 5.5\<rparr>],
      out @ [Total_importados 1])
   \<and> pattern_A ''Caderno 20 folhas 5,50'' = None
   \<and> pattern_B ''Caderno 20 folhas 5,50'' = Some (''Caderno 20 folhas'', Some ''5,50'')
   \<and> py_replace_comma ''5,50'' = ''5.50''"
  by code_simp

text \<open>The returned list of C2, with nothing printed before the call.\<close>

theorem no_quantity_line_example_witness:
  "fst (parse_inventory_file [''Caderno 20 folhas 5,50''] []) =
     [\<lparr>quantity = 1, name = ''Caderno 20 folhas'', price = 5.5\<rparr>]"
  by (simp add: no_quantity_line_example [THEN conjunct1])

text \<open>
  C3. Whenever the patterns capture no price token, or the captured token fails the
  conversion to a float after the comma has been replaced, the record appended for the
  line has price 0. The single line \<^verbatim>\<open>3 L\<close>, U+00E1, \<^verbatim>\<open>pis ?\<close> gives exactly one record, with
  quantity 3, price 0 and the \<^verbatim>\<open>?\<close> kept in the name.
\<close>

theorem price_zero_without_numeric_token:
  "(extract_fields line = Inr (q, nm, price_str)
      \<and> (price_str = None
           \<or> (\<exists>t. price_str = Some t \<and> py_float (py_replace_comma t) = Inl ValueError))
      \<and> try_body line = Inr (Some p)
    \<longrightarrow> price p = 0)
   \<and> parse_inventory_file [''3 L'' @ CHR 0xE1 # ''pis ?''] out =
       ([\<lparr>quantity = 3, name = ''L'' @ CHR 0xE1 # ''pis ?'', price = 0\<rparr>],
        out @ [Total_importados 1])"
proof (intro conjI impI)
  assume a: "extract_fields line = Inr (q, nm, price_str)
      \<and> (price_str = None
           \<or> (\<exists>t. price_str = Some t \<and> py_float (py_replace_comma t) = Inl ValueError))
      \<and> try_body line = Inr (Some p)"
  then have "convert_price price_str = 0"
    by (auto simp: convert_price_def)
  with a show "price p = 0"
    by (auto simp: try_body_def Let_def split: if_splits)
next
  show "parse_inventory_file [''3 L'' @ CHR 0xE1 # ''pis ?''] out =
       ([\<lparr>quantity = 3, name = ''L'' @ CHR 0xE1 # ''pis ?'', price = 0\<rparr>],
        out @ [Total_importados 1])"
    by code_simp
qed

text \<open>C3 at that line, where no token is captured.\<close>

theorem price_zero_without_numeric_token_witness:
  "extract_fields (''3 L'' @ CHR 0xE1 # ''pis ?'') = Inr (3, ''L'' @ CHR 0xE1 # ''pis ?'', None)
   \<and> try_body (''3 L'' @ CHR 0xE1 # ''pis ?'') =
       Inr (Some \<lparr>quantity = 3, name = ''L'' @ CHR 0xE1 # ''pis ?'', price = 0\<rparr>)
   \<and> price \<lparr>quantity = 3, name = ''L'' @ CHR 0xE1 # ''pis ?'', price = 0\<rparr> = 0"
proof -
  have e: "extract_fields (''3 L'' @ CHR 0xE1 # ''pis ?'') = Inr (3, ''L'' @ CHR 0xE1 # ''pis ?'', None)"
    by code_simp
  have t: "try_body (''3 L'' @ CHR 0xE1 # ''pis ?'') =
       Inr (Some \<lparr>quantity = 3, name = ''L'' @ CHR 0xE1 # ''pis ?'', price = 0\<rparr>)"
    by code_simp
  have "price \<lparr>quantity = 3, name = ''L'' @ CHR 0xE1 # ''pis ?'', price = 0\<rparr> = 0"
    by (rule price_zero_without_numeric_token
          [where line = "''3 L'' @ CHR 0xE1 # ''pis ?''" and q = 3
             and nm = "''L'' @ CHR 0xE1 # ''pis ?''" and price_str = None,
           THEN conjunct1, THEN mp])
       (use e t in simp)
  with e t show ?thesis by blast
qed

subsection \<open>Failures, the guard and the cleanup\<close>

text \<open>
  C4. The parser isolates failures per line. When the block under \<^verbatim>\<open>try\<close> raises on
  a line, the \<^verbatim>\<open>except\<close> clause catches the exception: the turn of the loop appends
  no record and prints one message, and the lines before and after the failing line
  give the records they give on their own. Every call returns: all functions of the
  model are total, the result is a list of records together with what was printed,
  ending with the count of the records.
\<close>

theorem line_failure_is_caught:
  "(try_body (py_strip raw) = Inl e \<and> \<not> length (py_strip raw) < 3 \<longrightarrow>
      loop_body n raw st = st\<lparr>stdout := stdout st @ [Erro_ao_processar n (py_strip raw) e]\<rparr>
      \<and> fst (parse_inventory_file (before @ raw # after) out) =
          fst (parse_inventory_file before out) @ fst (parse_inventory_file after out))
   \<and> (\<exists>recs msgs. parse_inventory_file lns out =
         (recs, out @ msgs @ [Total_importados (length recs)]))"
proof (intro conjI impI)
  assume h: "try_body (py_strip raw) = Inl e \<and> \<not> length (py_strip raw) < 3"
  then have ne: "py_strip raw \<noteq> []" by auto
  with h show "loop_body n raw st =
      st\<lparr>stdout := stdout st @ [Erro_ao_processar n (py_strip raw) e]\<rparr>"
    by (simp add: loop_body_def)
  from h ne have "products (loop_body 0 raw \<lparr>products = [], stdout = []\<rparr>) = []"
    by (simp add: loop_body_def)
  then show "fst (parse_inventory_file (before @ raw # after) out) =
          fst (parse_inventory_file before out) @ fst (parse_inventory_file after out)"
    by (simp add: parse_products)
next
  obtain ms where "stdout (for_lines 1 lns \<lparr>products = [], stdout = out\<rparr>) = out @ ms"
    using for_lines_stdout [of 1 lns "\<lparr>products = [], stdout = out\<rparr>"] by auto
  then show "\<exists>recs msgs. parse_inventory_file lns out =
         (recs, out @ msgs @ [Total_importados (length recs)])"
    by (simp add: parse_inventory_file_def Let_def)
qed

text \<open>
  C4 at a line that does raise: 4301 digits, a blank and \<^verbatim>\<open>x\<close>. The first pattern
  captures the digits as the quantity and \<^verbatim>\<open>int\<close> raises \<^verbatim>\<open>ValueError\<close>; the
  lines around it still give their records.
\<close>

theorem line_failure_is_caught_witness:
  "try_body (py_strip (replicate 4301 (CHR ''1'') @ '' x'')) = Inl ValueError
   \<and> \<not> length (py_strip (replicate 4301 (CHR ''1'') @ '' x'')) < 3
   \<and> fst (parse_inventory_file
            ([''Borracha.''] @ (replicate 4301 (CHR ''1'') @ '' x'') # [''5 5 5'']) []) =
       [\<lparr>quantity = 1, name = ''Borracha'', price = 0\<rparr>, \<lparr>quantity = 5, name = ''5'', price = 5\<rparr>]"
proof -
  have s: "py_strip (replicate 4301 (CHR ''1'') @ '' x'') = replicate 4301 (CHR ''1'') @ '' x''"
    by (rule py_strip_id) (simp_all add: is_space_def hd_append)
  have "try_body (replicate 4301 (CHR ''1'') @ '' x'') = Inl ValueError"
    by (rule try_body_long_quantity) (simp_all add: list_all_iff is_digit_def int_max_str_digits_def)
  with s have t: "try_body (py_strip (replicate 4301 (CHR ''1'') @ '' x'')) = Inl ValueError"
    by simp
  have l: "\<not> length (py_strip (replicate 4301 (CHR ''1'') @ '' x'')) < 3"
    unfolding s by simp
  have a: "fst (parse_inventory_file [''Borracha.''] []) = [\<lparr>quantity = 1, name = ''Borracha'', price = 0\<rparr>]"
    by code_simp
  have b: "fst (parse_inventory_file [''5 5 5''] []) = [\<lparr>quantity = 5, name = ''5'', price = 5\<rparr>]"
    by code_simp
  from t l have "fst (parse_inventory_file
            ([''Borracha.''] @ (replicate 4301 (CHR ''1'') @ '' x'') # [''5 5 5'']) []) =
      fst (parse_inventory_file [''Borracha.''] []) @ fst (parse_inventory_file [''5 5 5''] [])"
    using line_failure_is_caught
      [where raw = "replicate 4301 (CHR ''1'') @ '' x''" and e = ValueError
         and before = "[''Borracha.'']" and after = "[''5 5 5'']" and out = "[]"]
    by blast
  with t l show ?thesis by (simp only: a b append.simps simp_thms)
qed

text \<open>
  C5. Every record the parser returns has a quantity that is at least 0, a price that
  is at least 0 and a name that is not empty and has a character that is not
  whitespace.
\<close>

theorem emitted_records_invariant:
  "\<forall>p \<in> set (fst (parse_inventory_file lns out)).
     0 \<le> quantity p \<and> 0 \<le> price p \<and> name p \<noteq> [] \<and> \<not> list_all is_space (name p)"
proof
  fix p
  assume "p \<in> set (fst (parse_inventory_file lns out))"
  then obtain raw where "p \<in> set (products (loop_body 0 raw \<lparr>products = [], stdout = []\<rparr>))"
    by (auto simp: parse_products)
  then have "try_body (py_strip raw) = Inr (Some p)"
    by (auto simp: loop_body_def Let_def split: if_splits sum.splits option.splits)
  then show "0 \<le> quantity p \<and> 0 \<le> price p \<and> name p \<noteq> [] \<and> \<not> list_all is_space (name p)"
    by (rule try_body_invariant)
qed

text \<open>
  C5 at the record of the line \<^verbatim>\<open>12 Caderno 20 folhas 5.50\<close>.
\<close>

theorem emitted_records_invariant_witness:
  "fst (parse_inventory_file [''12 Caderno 20 folhas 5.50''] []) =
     [\<lparr>quantity = 12, name = ''Caderno 20 folhas'', price = 5.5\<rparr>]
   \<and> 0 \<le> quantity \<lparr>quantity = 12, name = ''Caderno 20 folhas'', price = 5.5\<rparr>
   \<and> 0 \<le> price \<lparr>quantity = 12, name = ''Caderno 20 folhas'', price = 5.5\<rparr>
   \<and> name \<lparr>quantity = 12, name = ''Caderno 20 folhas'', price = 5.5\<rparr> \<noteq> []
   \<and> \<not> list_all is_space (name \<lparr>quantity = 12, name = ''Caderno 20 folhas'', price = 5.5\<rparr>)"
proof -
  have e: "fst (parse_inventory_file [''12 Caderno 20 folhas 5.50''] []) =
     [\<lparr>quantity = 12, name = ''Caderno 20 folhas'', price = 5.5\<rparr>]"
    by code_simp
  then have "\<lparr>quantity = 12, name = ''Caderno 20 folhas'', price = 5.5\<rparr>
      \<in> set (fst (parse_inventory_file [''12 Caderno 20 folhas 5.50''] []))"
    by simp
  from emitted_records_invariant [of "[''12 Caderno 20 folhas 5.50'']" "[]", THEN bspec, OF this] e
  show ?thesis by blast
qed

text \<open>
  C6. The single line \<^verbatim>\<open>Borracha.\<close> gives exactly one record, with quantity 1,
  name \<^verbatim>\<open>Borracha\<close> and price 0. In general the cleanup strips the extracted name;
  when the stripped name ends with a point, it removes that one point and strips
  again, and otherwise it leaves the stripped name as it is. The result has no
  whitespace at either end, a second point at the end stays, and the name of every
  record is the cleanup of the name the patterns extracted.
\<close>

theorem name_cleanup:
  "parse_inventory_file [''Borracha.''] out =
     ([\<lparr>quantity = 1, name = ''Borracha'', price = 0\<rparr>], out @ [Total_importados 1])
   \<and> (\<forall>nm t. py_strip nm = t @ ''.'' \<longrightarrow> clean_name nm = py_strip t)
   \<and> (\<forall>nm. (\<forall>t. py_strip nm \<noteq> t @ ''.'') \<longrightarrow> clean_name nm = py_strip nm)
   \<and> (\<forall>nm. clean_name nm = []
          \<or> (\<not> is_space (hd (clean_name nm)) \<and> \<not> is_space (last (clean_name nm))))
   \<and> clean_name ''Borracha..'' = ''Borracha.''
   \<and> (\<forall>line p. try_body line = Inr (Some p) \<longrightarrow>
         (\<exists>q nm price_str. extract_fields line = Inr (q, nm, price_str)
                            \<and> name p = clean_name nm))"
proof (intro conjI allI impI)
  show "parse_inventory_file [''Borracha.''] out =
     ([\<lparr>quantity = 1, name = ''Borracha'', price = 0\<rparr>], out @ [Total_importados 1])"
    by code_simp
next
  fix nm t assume "py_strip nm = t @ ''.''"
  then show "clean_name nm = py_strip t" by (rule clean_name_dot)
next
  fix nm assume "\<forall>t. py_strip nm \<noteq> t @ ''.''"
  then show "clean_name nm = py_strip nm" by (simp add: clean_name_no_dot)
next
  fix nm
  show "clean_name nm = []
          \<or> (\<not> is_space (hd (clean_name nm)) \<and> \<not> is_space (last (clean_name nm)))"
    using py_strip_trimmed [of nm] py_strip_trimmed [of "py_drop_last (py_strip nm)"]
    by (auto simp: clean_name_def Let_def)
next
  show "clean_name ''Borracha..'' = ''Borracha.''" by code_simp
next
  fix line p assume "try_body line = Inr (Some p)"
  then show "\<exists>q nm price_str. extract_fields line = Inr (q, nm, price_str)
                            \<and> name p = clean_name nm"
    unfolding try_body_def Let_def
    by (auto split: sum.splits prod.splits if_splits)
qed

text \<open>
  C6 at the name \<^verbatim>\<open> Borracha. \<close>, whose stripped form ends with a point.
\<close>

theorem name_cleanup_witness:
  "py_strip '' Borracha. '' = ''Borracha'' @ ''.''
   \<and> clean_name '' Borracha. '' = ''Borracha''"
proof -
  have h: "py_strip '' Borracha. '' = ''Borracha'' @ ''.''" by code_simp
  have "clean_name '' Borracha. '' = py_strip ''Borracha''"
    using name_cleanup [of "[]"] h by blast
  moreover have "py_strip ''Borracha'' = ''Borracha''" by code_simp
  ultimately show ?thesis using h by simp
qed

subsection \<open>The loop\<close>

text \<open>
  C7. A line whose stripped form has fewer than 3 characters (the empty line
  included) is skipped: the turn of the loop leaves the list of records and what has
  been printed as they were, so the line gives no record and no message, and a file
  with the line gives the records of the file without it.
\<close>

theorem short_line_skipped:
  "length (py_strip raw) < 3 \<Longrightarrow>
     loop_body n raw st = st
     \<and> parse_inventory_file [raw] out = ([], out @ [Total_importados 0])
     \<and> fst (parse_inventory_file (before @ raw # after) out) =
         fst (parse_inventory_file (before @ after) out)"
proof -
  assume h: "length (py_strip raw) < 3"
  then have step: "\<And>n st. loop_body n raw st = st"
    by (simp add: loop_body_def)
  have single: "parse_inventory_file [raw] out = ([], out @ [Total_importados 0])"
    by (simp add: parse_inventory_file_def step)
  have "fst (parse_inventory_file (before @ raw # after) out) =
         fst (parse_inventory_file (before @ after) out)"
    unfolding parse_products by (simp add: step)
  with step single show ?thesis by simp
qed

text \<open>
  C7 at the line \<^verbatim>\<open>  x  \<close>, whose stripped form has one character.
\<close>

theorem short_line_skipped_witness:
  "length (py_strip ''  x  '') < 3
   \<and> loop_body 7 ''  x  '' \<lparr>products = [], stdout = []\<rparr> = \<lparr>products = [], stdout = []\<rparr>
   \<and> parse_inventory_file [''  x  ''] [] = ([], [Total_importados 0])"
proof -
  have h: "length (py_strip ''  x  '') < 3" by code_simp
  from short_line_skipped [OF h, of 7 "\<lparr>products = [], stdout = []\<rparr>" "[]" "[]" "[]"] h
  show ?thesis by simp
qed

text \<open>
  C8. Parsing is local to the line and keeps the order of the lines: the records of
  two sequences of lines one after the other are the records of the first followed by
  the records of the second, a single line gives at most one record, and the records
  of a file are the records of its lines, each parsed alone, in the order of the
  lines.
\<close>

theorem parsing_is_line_local:
  "fst (parse_inventory_file (xs @ ys) out) =
     fst (parse_inventory_file xs out1) @ fst (parse_inventory_file ys out2)
   \<and> length (fst (parse_inventory_file [raw] out)) \<le> 1
   \<and> fst (parse_inventory_file lns out) =
       concat (map (\<lambda>raw. fst (parse_inventory_file [raw] out1)) lns)"
proof (intro conjI)
  show "fst (parse_inventory_file (xs @ ys) out) =
     fst (parse_inventory_file xs out1) @ fst (parse_inventory_file ys out2)"
    by (simp add: parse_products)
  show "length (fst (parse_inventory_file [raw] out)) \<le> 1"
    unfolding parse_single by (rule loop_body_at_most_one)
  show "fst (parse_inventory_file lns out) =
       concat (map (\<lambda>raw. fst (parse_inventory_file [raw] out1)) lns)"
    by (simp add: parse_products)
qed

text \<open>
  C8 at two sequences of two lines each, one line of each giving no record.
\<close>

theorem parsing_is_line_local_witness:
  "fst (parse_inventory_file ([''Borracha.'', ''ab''] @ [''7 .'', ''5 5 5'']) []) =
     [\<lparr>quantity = 1, name = ''Borracha'', price = 0\<rparr>] @ [\<lparr>quantity = 5, name = ''5'', price = 5\<rparr>]"
proof -
  have a: "fst (parse_inventory_file [''Borracha.'', ''ab''] []) = [\<lparr>quantity = 1, name = ''Borracha'', price = 0\<rparr>]"
    by code_simp
  have b: "fst (parse_inventory_file [''7 .'', ''5 5 5''] []) = [\<lparr>quantity = 5, name = ''5'', price = 5\<rparr>]"
    by code_simp
  have "fst (parse_inventory_file ([''Borracha.'', ''ab''] @ [''7 .'', ''5 5 5'']) []) =
     fst (parse_inventory_file [''Borracha.'', ''ab''] []) @ fst (parse_inventory_file [''7 .'', ''5 5 5''] [])"
    by (rule parsing_is_line_local [THEN conjunct1])
  then show ?thesis by (simp only: a b)
qed

text \<open>
  C9. The parser is deterministic and keeps no state between calls: the returned
  records depend on the lines alone, not on what has been printed before, and a second
  call on the same lines, made after the first, returns the same records.
\<close>

theorem parse_is_deterministic:
  "fst (parse_inventory_file lns out1) = fst (parse_inventory_file lns out2)
   \<and> fst (parse_inventory_file lns (snd (parse_inventory_file lns out))) =
       fst (parse_inventory_file lns out)"
  by (simp add: parse_products)

text \<open>
  C9 at the single line \<^verbatim>\<open>Borracha.\<close>, parsed twice in a row.
\<close>

theorem parse_is_deterministic_witness:
  "fst (parse_inventory_file [''Borracha.''] (snd (parse_inventory_file [''Borracha.''] []))) =
     fst (parse_inventory_file [''Borracha.''] [])"
  by (rule parse_is_deterministic [THEN conjunct2])

subsection \<open>The whole-line fallback\<close>

text \<open>
  C10. On a line without a newline the second pattern always matches, so the branch
  that takes the whole line as the name (lines 47-51) is never taken: when the first
  pattern fails, the fields are those of the second pattern.
\<close>

theorem pattern_B_always_matches:
  "newline \<notin> set line \<Longrightarrow>
     (\<exists>body tok. pattern_B line = Some (body, tok)
        \<and> (pattern_A line = None \<longrightarrow> extract_fields line = Inr (1, py_strip body, tok)))"
proof -
  assume "newline \<notin> set line"
  then have "match_body_tail line \<noteq> None" by (rule match_body_tail_no_newline)
  then obtain body tok where "pattern_B line = Some (body, tok)"
    by (auto simp: pattern_B_def)
  then show ?thesis by (auto simp: extract_fields_def)
qed

text \<open>
  C10 at the line \<^verbatim>\<open>Borracha.\<close>, which the first pattern does not match.
\<close>

theorem pattern_B_always_matches_witness:
  "newline \<notin> set ''Borracha.'' \<and> pattern_A ''Borracha.'' = None
   \<and> (\<exists>body tok. pattern_B ''Borracha.'' = Some (body, tok)
         \<and> extract_fields ''Borracha.'' = Inr (1, py_strip body, tok))"
proof -
  have h: "newline \<notin> set ''Borracha.''" by (simp add: newline_def)
  have a: "pattern_A ''Borracha.'' = None" by code_simp
  from pattern_B_always_matches [OF h] a h show ?thesis by blast
qed

end
